theory Spec2Isabelle
  imports Main
begin

section \<open>Audio capture: \<open>AudioStreamer\<close>\<close>

text \<open>
  The capture side of \<^verbatim>\<open>scripts/usb_audio_stt_translate.py\<close>. An audio frame is the
  Python \<^verbatim>\<open>bytes\<close> object handed to the callback. The object state is the
  \<^verbatim>\<open>is_recording\<close> flag, the \<^verbatim>\<open>queue.Queue()\<close> (unbounded, first in first out: the
  head of the list is the oldest frame), the \<^verbatim>\<open>stream\<close> attribute (absent until
  \<^verbatim>\<open>start_stream\<close> has assigned it) and whether \<^verbatim>\<open>audio.terminate()\<close> has run.
\<close>

type_synonym bytes = "char list"

datatype stream_state = Started | Closed

record audio_streamer =
  is_recording :: bool
  audio_queue :: "bytes list"
  stream :: "stream_state option"
  terminated :: bool

definition init_streamer :: audio_streamer where
  "init_streamer =
     \<lparr>is_recording = False, audio_queue = [], stream = None, terminated = False\<rparr>"

datatype pa_flag = paContinue

text \<open>
  \<^verbatim>\<open>_audio_callback\<close>: the frame is put on the queue only while the flag is set; the
  callback always answers \<^verbatim>\<open>(in_data, paContinue)\<close>.
\<close>

definition audio_callback :: "bytes \<Rightarrow> audio_streamer \<Rightarrow> (bytes \<times> pa_flag) \<times> audio_streamer" where
  "audio_callback in_data s =
     ((in_data, paContinue),
      (if is_recording s then s\<lparr>audio_queue := audio_queue s @ [in_data]\<rparr> else s))"

definition start_stream :: "audio_streamer \<Rightarrow> audio_streamer" where
  "start_stream s = s\<lparr>is_recording := True, stream := Some Started\<rparr>"

text \<open>
  \<^verbatim>\<open>stop_stream\<close>: the flag is cleared first; the stream is stopped and closed only when
  the attribute exists; the audio subsystem is terminated in all cases.
\<close>

definition stop_stream :: "audio_streamer \<Rightarrow> audio_streamer" where
  "stop_stream s =
     (let s1 = s\<lparr>is_recording := False\<rparr>;
          s2 = (case stream s1 of None \<Rightarrow> s1 | Some _ \<Rightarrow> s1\<lparr>stream := Some Closed\<rparr>)
      in s2\<lparr>terminated := True\<rparr>)"

subsection \<open>The generator \<open>audio_generator\<close>\<close>

text \<open>
  The generator object runs concurrently with the capture callback and with
  \<^verbatim>\<open>stop_stream\<close>, so it is modelled by its atomic steps. Its control point is either
  the test of the \<^verbatim>\<open>while\<close> loop, or the call \<^verbatim>\<open>audio_queue.get(timeout=1)\<close>, or the end
  of the function body. \<^verbatim>\<open>yielded\<close> is the sequence of chunks it has produced so far.

  At the loop test the flag is read: set, the generator enters \<^verbatim>\<open>get\<close>; clear, the loop
  and with it the generator ends. In \<^verbatim>\<open>get\<close>, a queued frame is taken from the head of
  the queue and yielded, after which the generator is back at the loop test; when the
  queue is still empty at the end of the waiting time, \<^verbatim>\<open>queue.Empty\<close> is raised and the
  handler's \<^verbatim>\<open>continue\<close> leads back to the loop test as well.
\<close>

datatype gen_pc = AtWhile | AtGet | Exhausted

record capture =
  streamer :: audio_streamer
  pc :: gen_pc
  yielded :: "bytes list"

definition audio_generator :: "audio_streamer \<Rightarrow> capture" where
  "audio_generator s = \<lparr>streamer = s, pc = AtWhile, yielded = []\<rparr>"

fun gen_step :: "capture \<Rightarrow> capture" where
  "gen_step c =
     (case pc c of
        AtWhile \<Rightarrow> (if is_recording (streamer c) then c\<lparr>pc := AtGet\<rparr> else c\<lparr>pc := Exhausted\<rparr>)
      | AtGet \<Rightarrow>
          (case audio_queue (streamer c) of
             [] \<Rightarrow> c\<lparr>pc := AtWhile\<rparr>
           | chunk # rest \<Rightarrow>
               c\<lparr>streamer := (streamer c)\<lparr>audio_queue := rest\<rparr>,
                 yielded := yielded c @ [chunk], pc := AtWhile\<rparr>)
      | Exhausted \<Rightarrow> c)"

text \<open>
  What the three threads do, in the order the scheduler interleaves them: the audio
  subsystem invokes the callback with a frame, the main thread calls
  \<^verbatim>\<open>stop_stream\<close>, or the generator takes its next step.
\<close>

datatype event = Callback bytes | StopStream | Gen

fun step :: "event \<Rightarrow> capture \<Rightarrow> capture" where
  "step (Callback in_data) c = c\<lparr>streamer := snd (audio_callback in_data (streamer c))\<rparr>"
| "step StopStream c = c\<lparr>streamer := stop_stream (streamer c)\<rparr>"
| "step Gen c = gen_step c"

fun run :: "event list \<Rightarrow> capture \<Rightarrow> capture" where
  "run [] c = c"
| "run (e # es) c = run es (step e c)"

text \<open>The frames that the callback accepts into the queue along a schedule.\<close>

fun enqueued :: "event list \<Rightarrow> capture \<Rightarrow> bytes list" where
  "enqueued [] c = []"
| "enqueued (Callback in_data # es) c =
     (if is_recording (streamer c) then [in_data] else []) @ enqueued es (step (Callback in_data) c)"
| "enqueued (e # es) c = enqueued es (step e c)"

section \<open>Recognition, commit and session log: \<open>SpeechToTextTranslator\<close>\<close>

subsection \<open>Text and time formatting\<close>

text \<open>
  Python text is modelled as UTF-8 bytes. The symbols that the script prints in front of
  its console messages are therefore short byte sequences.
\<close>

definition nl :: string where "nl = [CHR 0x0A]"
definition apostrophe :: string where "apostrophe = [CHR 0x27]"
definition cr :: string where "cr = [CHR 0x0D]"

definition floppy_disk :: string where "floppy_disk = [CHR 0xF0, CHR 0x9F, CHR 0x92, CHR 0xBE]"
definition headphone :: string where "headphone = [CHR 0xF0, CHR 0x9F, CHR 0x8E, CHR 0xA7]"
definition globe_meridians :: string where "globe_meridians = [CHR 0xF0, CHR 0x9F, CHR 0x8C, CHR 0x90]"
definition memo :: string where "memo = [CHR 0xF0, CHR 0x9F, CHR 0x93, CHR 0x9D]"
definition globe_europe :: string where "globe_europe = [CHR 0xF0, CHR 0x9F, CHR 0x8C, CHR 0x8D]"
definition thought_balloon :: string where "thought_balloon = [CHR 0xF0, CHR 0x9F, CHR 0x92, CHR 0xAD]"
definition cross_mark :: string where "cross_mark = [CHR 0xE2, CHR 0x9D, CHR 0x8C]"
definition check_mark :: string where "check_mark = [CHR 0xE2, CHR 0x9C, CHR 0x85]"

text \<open>\<^verbatim>\<open>str(n)\<close> for a non-negative integer, and zero padding to a width.\<close>

definition digit :: "nat \<Rightarrow> char" where
  "digit n = ''0123456789'' ! n"

fun str_nat :: "nat \<Rightarrow> string" where
  "str_nat n = (if n < 10 then [digit n] else str_nat (n div 10) @ [digit (n mod 10)])"

declare str_nat.simps [simp del]

definition zero_pad :: "nat \<Rightarrow> nat \<Rightarrow> string" where
  "zero_pad width n = replicate (width - length (str_nat n)) (CHR ''0'') @ str_nat n"

text \<open>
  A reading of \<^verbatim>\<open>datetime.now()\<close>, with the three renderings the script uses:
  \<^verbatim>\<open>strftime("%H:%M:%S")\<close>, \<^verbatim>\<open>strftime("%Y%m%d_%H%M%S")\<close> and \<^verbatim>\<open>str\<close>, which leaves
  the fraction out when the microseconds are zero. \<^verbatim>\<open>str\<close> pads the year to four
  digits; \<^verbatim>\<open>%Y\<close> writes it as it is.
\<close>

record datetime =
  year :: nat
  month :: nat
  day :: nat
  hour :: nat
  minute :: nat
  second :: nat
  microsecond :: nat

definition strftime_HMS :: "datetime \<Rightarrow> string" where
  "strftime_HMS d = zero_pad 2 (hour d) @ '':'' @ zero_pad 2 (minute d) @ '':'' @ zero_pad 2 (second d)"

definition strftime_Ymd_HMS :: "datetime \<Rightarrow> string" where
  "strftime_Ymd_HMS d =
     str_nat (year d) @ zero_pad 2 (month d) @ zero_pad 2 (day d) @ ''_'' @
     zero_pad 2 (hour d) @ zero_pad 2 (minute d) @ zero_pad 2 (second d)"

definition str_datetime :: "datetime \<Rightarrow> string" where
  "str_datetime d =
     zero_pad 4 (year d) @ ''-'' @ zero_pad 2 (month d) @ ''-'' @ zero_pad 2 (day d) @ '' '' @
     strftime_HMS d @
     (if microsecond d = 0 then [] else ''.'' @ zero_pad 6 (microsecond d))"

text \<open>\<^verbatim>\<open>s.split('-')[0]\<close>: the text before the first hyphen, all of it when there is none.\<close>

definition split_first :: "string \<Rightarrow> string" where
  "split_first s = takeWhile (\<lambda>c. c \<noteq> CHR ''-'') s"

subsection \<open>Objects, collaborators and the state of a run\<close>

text \<open>
  An exception is either one that \<^verbatim>\<open>except Exception\<close> catches, kept with its message
  \<^verbatim>\<open>str(e)\<close>, or the \<^verbatim>\<open>KeyboardInterrupt\<close> that the operator's interrupt raises in the
  main thread, which \<^verbatim>\<open>except Exception\<close> lets pass.
\<close>

datatype exn = Error string | KeyboardInterrupt

text \<open>
  A result of the recognizer carries its alternatives (their transcripts) and the
  finality flag; a response carries a list of results.
\<close>

record result =
  alternatives :: "string list"
  is_final :: bool

type_synonym response = "result list"

text \<open>
  The output file object: what \<^verbatim>\<open>write\<close> has put into the buffer of the file object,
  what \<^verbatim>\<open>flush\<close> and \<^verbatim>\<open>close\<close> have handed to the operating system (the bytes a
  concurrent reader of the file sees), and whether the object is closed. A file object
  may pass buffered text on by itself when its buffer fills; the model keeps it until
  \<^verbatim>\<open>flush\<close> or \<^verbatim>\<open>close\<close>, so that \<^verbatim>\<open>persisted\<close> is what is certain to have been passed on.
\<close>

record out_file =
  file_name :: string
  buffer :: string
  persisted :: string
  closed :: bool

text \<open>
  The translator object: the two language codes; its \<^verbatim>\<open>output_file\<close> attribute changes
  during a run and is part of the state below.
\<close>

record translator =
  source_language :: string
  target_language :: string

text \<open>
  The collaborators of one run. The clock answers its \<open>k\<close>-th reading. The translation
  client answers its \<open>k\<close>-th call \<^verbatim>\<open>translate(text, target_language=..., source_language=...)\<close>
  with the translated text, or raises an exception with a message. The recognizer
  delivers the listed responses and then ends the stream, or raises an exception in
  place of the next response.
\<close>

record env =
  now :: "nat \<Rightarrow> datetime"
  translate_client :: "nat \<Rightarrow> string \<Rightarrow> string \<Rightarrow> string \<Rightarrow> string + string"
  responses :: "response list"
  stream_error :: "string option"

text \<open>
  The state that a run of \<^verbatim>\<open>process_stream\<close> reads and changes: the attribute
  \<^verbatim>\<open>self.output_file\<close>, the local variables \<^verbatim>\<open>segment_count\<close> and
  \<^verbatim>\<open>output_filename\<close> (unbound until assigned), the console, the calls received by the
  translation client as (text, target language, source language), the number of clock
  readings, and the operator's interrupt: \<open>Some n\<close> when the signal arrives after \<open>n\<close>
  more input or output operations, \<open>None\<close> when no signal is pending.
\<close>

record world =
  output_file :: "out_file option"
  segment_count :: nat
  output_filename :: "string option"
  console :: "string list"
  translate_calls :: "(string \<times> string \<times> string) list"
  clock_reads :: nat
  interrupt_in :: "nat option"

text \<open>A statement either completes with a value or raises, and leaves a new state.\<close>

type_synonym 'a prog = "world \<Rightarrow> (exn + 'a) \<times> world"

definition return :: "'a \<Rightarrow> 'a prog" where
  "return x w = (Inr x, w)"

definition raise :: "exn \<Rightarrow> 'a prog" where
  "raise e w = (Inl e, w)"

definition bind :: "'a prog \<Rightarrow> ('a \<Rightarrow> 'b prog) \<Rightarrow> 'b prog" where
  "bind m f w = (case m w of (Inl e, w') \<Rightarrow> (Inl e, w') | (Inr x, w') \<Rightarrow> f x w')"

fun block :: "unit prog list \<Rightarrow> unit prog" where
  "block [] = return ()"
| "block (m # ms) = bind m (\<lambda>_. block ms)"

definition gets :: "(world \<Rightarrow> 'a) \<Rightarrow> 'a prog" where
  "gets f w = (Inr (f w), w)"

definition modify :: "(world \<Rightarrow> world) \<Rightarrow> unit prog" where
  "modify f w = (Inr (), f w)"

text \<open>\<^verbatim>\<open>try: m  except Exception as e: h e\<close> and \<^verbatim>\<open>try: m  finally: fin\<close>.\<close>

definition try_except :: "'a prog \<Rightarrow> (string \<Rightarrow> 'a prog) \<Rightarrow> 'a prog" where
  "try_except m h w = (case m w of (Inl (Error e), w') \<Rightarrow> h e w' | r \<Rightarrow> r)"

definition try_finally :: "'a prog \<Rightarrow> unit prog \<Rightarrow> 'a prog" where
  "try_finally m fin w =
     (case m w of (r, w') \<Rightarrow>
        (case fin w' of (Inl e, w'') \<Rightarrow> (Inl e, w'') | (Inr _, w'') \<Rightarrow> (r, w'')))"

text \<open>
  Every input or output operation is a point where a pending interrupt is delivered:
  when the countdown has reached zero the operation raises \<^verbatim>\<open>KeyboardInterrupt\<close>
  instead of running, and the signal is spent.
\<close>

definition tick :: "unit prog" where
  "tick w =
     (case interrupt_in w of
        None \<Rightarrow> (Inr (), w)
      | Some 0 \<Rightarrow> (Inl KeyboardInterrupt, w\<lparr>interrupt_in := None\<rparr>)
      | Some (Suc n) \<Rightarrow> (Inr (), w\<lparr>interrupt_in := Some n\<rparr>))"

definition print :: "string \<Rightarrow> string \<Rightarrow> unit prog" where
  "print text end_text =
     bind tick (\<lambda>_. modify (\<lambda>w. w\<lparr>console := console w @ [text @ end_text]\<rparr>))"

definition datetime_now :: "env \<Rightarrow> datetime prog" where
  "datetime_now e w = (Inr (now e (clock_reads w)), w\<lparr>clock_reads := Suc (clock_reads w)\<rparr>)"

text \<open>
  \<^verbatim>\<open>open(output_filename, 'w', encoding='utf-8')\<close> assigned to \<^verbatim>\<open>self.output_file\<close>:
  a new, empty, open file object.
\<close>

definition file_open :: "string \<Rightarrow> unit prog" where
  "file_open name =
     bind tick (\<lambda>_. modify (\<lambda>w. w\<lparr>output_file :=
       Some \<lparr>file_name = name, buffer = [], persisted = [], closed = False\<rparr>\<rparr>))"

text \<open>
  \<^verbatim>\<open>self.output_file.write(text)\<close>, \<^verbatim>\<open>.flush()\<close> and \<^verbatim>\<open>.close()\<close>. Writing to or flushing a
  closed file object raises \<^verbatim>\<open>ValueError\<close>; on \<^verbatim>\<open>None\<close> the attribute lookup raises
  \<^verbatim>\<open>AttributeError\<close>. Closing flushes the buffer; closing a closed file does nothing.
\<close>

definition file_write :: "string \<Rightarrow> unit prog" where
  "file_write text =
     bind tick (\<lambda>_. bind (gets output_file) (\<lambda>fo.
       case fo of
         None \<Rightarrow> raise (Error (apostrophe @ ''NoneType'' @ apostrophe @ '' object has no attribute '' @
                  apostrophe @ ''write'' @ apostrophe))
       | Some f \<Rightarrow>
           if closed f then raise (Error ''I/O operation on closed file.'')
           else modify (\<lambda>w. w\<lparr>output_file := Some (f\<lparr>buffer := buffer f @ text\<rparr>)\<rparr>)))"

definition file_flush :: "unit prog" where
  "file_flush =
     bind tick (\<lambda>_. bind (gets output_file) (\<lambda>fo.
       case fo of
         None \<Rightarrow> raise (Error (apostrophe @ ''NoneType'' @ apostrophe @ '' object has no attribute '' @
                  apostrophe @ ''flush'' @ apostrophe))
       | Some f \<Rightarrow>
           if closed f then raise (Error ''I/O operation on closed file.'')
           else modify (\<lambda>w. w\<lparr>output_file :=
                  Some (f\<lparr>persisted := persisted f @ buffer f, buffer := []\<rparr>)\<rparr>)))"

definition file_close :: "unit prog" where
  "file_close =
     bind tick (\<lambda>_. bind (gets output_file) (\<lambda>fo.
       case fo of
         None \<Rightarrow> raise (Error (apostrophe @ ''NoneType'' @ apostrophe @ '' object has no attribute '' @
                  apostrophe @ ''close'' @ apostrophe))
       | Some f \<Rightarrow>
           if closed f then return ()
           else modify (\<lambda>w. w\<lparr>output_file :=
                  Some (f\<lparr>persisted := persisted f @ buffer f, buffer := [], closed := True\<rparr>)\<rparr>)))"

subsection \<open>\<open>translate_text\<close>\<close>

text \<open>
  The call to the translation collaborator: the call is recorded with the arguments it
  receives, and the client's answer to it is returned or raised.
\<close>

definition client_translate :: "env \<Rightarrow> string \<Rightarrow> string \<Rightarrow> string \<Rightarrow> string prog" where
  "client_translate e text target source =
     bind tick (\<lambda>_. bind (gets translate_calls) (\<lambda>calls.
       bind (modify (\<lambda>w. w\<lparr>translate_calls := calls @ [(text, target, source)]\<rparr>)) (\<lambda>_.
         case translate_client e (length calls) text target source of
           Inl msg \<Rightarrow> raise (Error msg)
         | Inr translated \<Rightarrow> return translated)))"

definition translate_text :: "translator \<Rightarrow> env \<Rightarrow> string \<Rightarrow> string prog" where
  "translate_text self e text =
     try_except
       (client_translate e text (target_language self) (split_first (source_language self)))
       (\<lambda>msg. return (''[Translation error: '' @ msg @ '']''))"

subsection \<open>\<open>process_stream\<close>\<close>

text \<open>\<^verbatim>\<open>"=" * 60\<close> and \<^verbatim>\<open>"-" * 60\<close>.\<close>

definition rule60 :: "char \<Rightarrow> string" where
  "rule60 c = replicate 60 c"

text \<open>
  The block under \<^verbatim>\<open>if save_to_file:\<close>. The directory and the file are taken to be
  creatable. The clock is read once for the file name and once for the \<^verbatim>\<open>Date\<close> line.
\<close>

definition open_output_file :: "translator \<Rightarrow> env \<Rightarrow> unit prog" where
  "open_output_file self e =
     bind (datetime_now e) (\<lambda>d0.
       let output_filename' = ''results/live_translation_'' @ strftime_Ymd_HMS d0 @ ''.txt'' in
       block [
         modify (\<lambda>w. w\<lparr>output_filename := Some output_filename'\<rparr>),
         file_open output_filename',
         file_write (''LIVE TRANSLATION SESSION'' @ nl),
         file_write (rule60 (CHR ''='') @ nl),
         bind (datetime_now e) (\<lambda>d1. file_write (''Date: '' @ str_datetime d1 @ nl)),
         file_write (''Source Language: '' @ source_language self @ nl),
         file_write (''Target Language: '' @ target_language self @ nl),
         file_write (rule60 (CHR ''='') @ nl @ nl),
         file_flush,
         print (nl @ floppy_disk @ '' Saving translations to: '' @ output_filename' @ nl) nl])"

text \<open>\<^verbatim>\<open>if self.output_file: ...\<close>: a file object is true, \<^verbatim>\<open>None\<close> is false.\<close>

definition if_output_file :: "unit prog \<Rightarrow> unit prog" where
  "if_output_file m = bind (gets output_file) (\<lambda>fo. if fo \<noteq> None then m else return ())"

text \<open>\<^verbatim>\<open>result.alternatives[0].transcript\<close>: indexing an empty sequence raises \<^verbatim>\<open>IndexError\<close>.\<close>

definition first_transcript :: "result \<Rightarrow> string prog" where
  "first_transcript r =
     (case alternatives r of
        [] \<Rightarrow> raise (Error ''list index out of range'')
      | transcript # _ \<Rightarrow> return transcript)"

text \<open>The body of the inner loop, for one result.\<close>

definition handle_result :: "translator \<Rightarrow> env \<Rightarrow> bool \<Rightarrow> result \<Rightarrow> unit prog" where
  "handle_result self e translate_enabled r =
     bind (first_transcript r) (\<lambda>transcript.
       if is_final r then
         bind (modify (\<lambda>w. w\<lparr>segment_count := segment_count w + 1\<rparr>)) (\<lambda>_.
         bind (datetime_now e) (\<lambda>d.
           let timestamp_str = strftime_HMS d in
           block [
             print (memo @ '' ['' @ timestamp_str @ ''] Original: '' @ transcript) nl,
             (if translate_enabled then
                bind (translate_text self e transcript) (\<lambda>translation.
                  block [
                    print (globe_europe @ '' ['' @ timestamp_str @ ''] Translated: '' @ translation) nl,
                    if_output_file
                      (block [
                         bind (gets segment_count) (\<lambda>n.
                           file_write (''['' @ timestamp_str @ ''] Segment '' @ str_nat n @ nl)),
                         file_write (''Original ('' @ source_language self @ ''): '' @ transcript @ nl),
                         file_write (''Translation ('' @ target_language self @ ''): '' @ translation @ nl),
                         file_write (rule60 (CHR ''-'') @ nl @ nl),
                         file_flush])])
              else
                if_output_file
                  (block [file_write (''['' @ timestamp_str @ ''] '' @ transcript @ nl @ nl), file_flush])),
             print (rule60 (CHR ''-'')) nl]))
       else
         print (thought_balloon @ '' '' @ transcript) cr)"

fun for_results :: "translator \<Rightarrow> env \<Rightarrow> bool \<Rightarrow> result list \<Rightarrow> unit prog" where
  "for_results self e translate_enabled [] = return ()"
| "for_results self e translate_enabled (r # rs) =
     bind (handle_result self e translate_enabled r) (\<lambda>_. for_results self e translate_enabled rs)"

text \<open>
  The outer loop: waiting for the next response is an input operation; at the end of
  the listed responses the stream ends or raises.
\<close>

fun for_responses :: "translator \<Rightarrow> env \<Rightarrow> bool \<Rightarrow> response list \<Rightarrow> string option \<Rightarrow> unit prog" where
  "for_responses self e translate_enabled [] err =
     bind tick (\<lambda>_. case err of None \<Rightarrow> return () | Some msg \<Rightarrow> raise (Error msg))"
| "for_responses self e translate_enabled (resp # rest) err =
     bind tick (\<lambda>_.
     bind (for_results self e translate_enabled resp) (\<lambda>_.
       for_responses self e translate_enabled rest err))"

text \<open>
  The \<^verbatim>\<open>finally\<close> block. The last \<^verbatim>\<open>print\<close> reads the local \<^verbatim>\<open>output_filename\<close>, which is
  unbound when the run did not open a file itself; the message of the exception is the
  one of Python 3.11 and later.
\<close>

definition close_output_file :: "env \<Rightarrow> unit prog" where
  "close_output_file e =
     if_output_file
       (block [
          file_write (nl @ rule60 (CHR ''='') @ nl),
          bind (datetime_now e) (\<lambda>d. file_write (''Session ended: '' @ str_datetime d @ nl)),
          bind (gets segment_count) (\<lambda>n. file_write (''Total segments: '' @ str_nat n @ nl)),
          file_close,
          bind (gets output_filename) (\<lambda>name.
            case name of
              None \<Rightarrow> raise (Error (''cannot access local variable '' @ apostrophe @
                ''output_filename'' @ apostrophe @ '' where it is not associated with a value''))
            | Some output_filename' \<Rightarrow>
                print (nl @ check_mark @ '' Translation saved to: '' @ output_filename') nl)])"

text \<open>
  The method body. On entry the locals of the new frame are unbound; \<^verbatim>\<open>segment_count\<close> is
  assigned before the \<^verbatim>\<open>try\<close> statement, whose handler prints the message of a caught
  exception and whose \<^verbatim>\<open>finally\<close> block runs on every way out.
\<close>

definition process_stream :: "translator \<Rightarrow> env \<Rightarrow> bool \<Rightarrow> bool \<Rightarrow> unit prog" where
  "process_stream self e translate_enabled save_to_file =
     block [
       modify (\<lambda>w. w\<lparr>output_filename := None\<rparr>),
       (if save_to_file then open_output_file self e else return ()),
       print (nl @ headphone @ '' Listening in '' @ source_language self @ ''...'') nl,
       (if translate_enabled
        then print (globe_meridians @ '' Translating to '' @ target_language self @ ''...'' @ nl) nl
        else return ()),
       modify (\<lambda>w. w\<lparr>segment_count := 0\<rparr>),
       try_finally
         (try_except
            (for_responses self e translate_enabled (responses e) (stream_error e))
            (\<lambda>msg. print (nl @ cross_mark @ '' Error: '' @ msg) nl))
         (close_output_file e)]"

text \<open>
  The state in which a new translator object starts its first run: no output file, the
  locals unbound, nothing printed, no call made, and the given interrupt pending.
\<close>

definition fresh :: "nat option \<Rightarrow> world" where
  "fresh intr =
     \<lparr>output_file = None, segment_count = 0, output_filename = None, console = [],
      translate_calls = [], clock_reads = 0, interrupt_in = intr\<rparr>"

section \<open>What a session is expected to leave in the log\<close>

text \<open>
  The layout of the session log as the specification documents it, each text being one
  line or group of lines: the header, the entry of a segment with its number, and the
  trailer with the number of segments. The theorems below compare what the code writes
  with these.
\<close>

definition header_lines :: "translator \<Rightarrow> datetime \<Rightarrow> string list" where
  "header_lines self d =
     [''LIVE TRANSLATION SESSION'' @ nl,
      rule60 (CHR ''='') @ nl,
      ''Date: '' @ str_datetime d @ nl,
      ''Source Language: '' @ source_language self @ nl,
      ''Target Language: '' @ target_language self @ nl,
      rule60 (CHR ''='') @ nl @ nl]"

definition segment_lines :: "translator \<Rightarrow> string \<Rightarrow> nat \<Rightarrow> string \<Rightarrow> string \<Rightarrow> string list" where
  "segment_lines self timestamp_str n transcript translation =
     [''['' @ timestamp_str @ ''] Segment '' @ str_nat n @ nl,
      ''Original ('' @ source_language self @ ''): '' @ transcript @ nl,
      ''Translation ('' @ target_language self @ ''): '' @ translation @ nl,
      rule60 (CHR ''-'') @ nl @ nl]"

definition trailer_lines :: "datetime \<Rightarrow> nat \<Rightarrow> string list" where
  "trailer_lines d n =
     [nl @ rule60 (CHR ''='') @ nl,
      ''Session ended: '' @ str_datetime d @ nl,
      ''Total segments: '' @ str_nat n @ nl]"

text \<open>
  The transcript of a result that has an alternative, and the final results of a run in
  the order the recognizer delivers them.
\<close>

definition transcript :: "result \<Rightarrow> string" where
  "transcript r = hd (alternatives r)"

definition final_results :: "env \<Rightarrow> result list" where
  "final_results e = filter is_final (concat (responses e))"

definition finals :: "result list \<Rightarrow> string list" where
  "finals rs = map transcript (filter is_final rs)"

text \<open>
  The text that \<^verbatim>\<open>translate_text\<close> returns when its call is the \<open>k\<close>-th call to the
  client: the client's translation, or the bracketed message of the exception.
\<close>

definition translated_field :: "translator \<Rightarrow> env \<Rightarrow> nat \<Rightarrow> string \<Rightarrow> string" where
  "translated_field self e k text =
     (case translate_client e k text (target_language self) (split_first (source_language self)) of
        Inl msg \<Rightarrow> ''[Translation error: '' @ msg @ '']''
      | Inr translated \<Rightarrow> translated)"

text \<open>
  The log entries for a list of transcripts, when the counter stands at \<open>n\<close>, the clock
  has been read \<open>c\<close> times and the client has been called \<open>k\<close> times.
\<close>

fun entries :: "translator \<Rightarrow> env \<Rightarrow> nat \<Rightarrow> nat \<Rightarrow> nat \<Rightarrow> string list \<Rightarrow> string" where
  "entries self e n c k [] = []"
| "entries self e n c k (t # ts) =
     concat (segment_lines self (strftime_HMS (now e c)) (Suc n) t (translated_field self e k t)) @
     entries self e (Suc n) (Suc c) (Suc k) ts"

subsection \<open>An example session\<close>

text \<open>
  English to Spanish; an interim result and two utterances; the translation client
  fails for the second utterance. The clock advances by a second at each reading.
\<close>

definition example_self :: translator where
  "example_self = \<lparr>source_language = ''en-US'', target_language = ''es''\<rparr>"

definition example_clock :: "nat \<Rightarrow> datetime" where
  "example_clock k =
     \<lparr>year = 2024, month = 5, day = 17, hour = 9, minute = 30, second = k, microsecond = 0\<rparr>"

definition example_client :: "nat \<Rightarrow> string \<Rightarrow> string \<Rightarrow> string \<Rightarrow> string + string" where
  "example_client k text target source =
     (if text = ''Let us pray.'' then Inl ''quota exceeded'' else Inr ''Buenos dias a todos.'')"

definition interim_good :: result where
  "interim_good = \<lparr>alternatives = [''Good''], is_final = False\<rparr>"

definition final_good_morning :: result where
  "final_good_morning = \<lparr>alternatives = [''Good morning everyone.''], is_final = True\<rparr>"

definition final_let_us_pray :: result where
  "final_let_us_pray = \<lparr>alternatives = [''Let us pray.''], is_final = True\<rparr>"

definition example_env :: env where
  "example_env =
     \<lparr>now = example_clock, translate_client = example_client,
      responses = [[interim_good, final_good_morning], [final_let_us_pray]],
      stream_error = None\<rparr>"

text \<open>A state in the middle of a session: the log is open and holds the flushed header.\<close>

definition streaming :: "nat option \<Rightarrow> world" where
  "streaming intr =
     \<lparr>output_file = Some \<lparr>file_name = ''results/live_translation_20240517_093000.txt'',
         buffer = [], persisted = concat (header_lines example_self (example_clock 1)),
         closed = False\<rparr>,
      segment_count = 0,
      output_filename = Some ''results/live_translation_20240517_093000.txt'',
      console = [], translate_calls = [], clock_reads = 2, interrupt_in = intr\<rparr>"

section \<open>Properties of the capture side\<close>

lemma run_append: "run (es @ es') c = run es' (run es c)"
  by (induction es arbitrary: c) simp_all

lemma step_fifo:
  "yielded (step e c) @ audio_queue (streamer (step e c)) =
   yielded c @ audio_queue (streamer c) @ enqueued [e] c"
  by (cases e)
     (simp_all add: audio_callback_def stop_stream_def Let_def
        split: gen_pc.split list.split option.split)

lemma enqueued_Cons: "enqueued (e # es) c = enqueued [e] c @ enqueued es (step e c)"
  by (cases e) simp_all

lemma run_fifo:
  "yielded (run es c) @ audio_queue (streamer (run es c)) =
   yielded c @ audio_queue (streamer c) @ enqueued es c"
proof (induction es arbitrary: c)
  case Nil
  show ?case by simp
next
  case (Cons e es)
  have "yielded (run (e # es) c) @ audio_queue (streamer (run (e # es) c)) =
        yielded (step e c) @ audio_queue (streamer (step e c)) @ enqueued es (step e c)"
    using Cons.IH [of "step e c"] by simp
  also have "\<dots> = yielded c @ audio_queue (streamer c) @ enqueued [e] c @ enqueued es (step e c)"
    using step_fifo [of e c] by (metis append.assoc)
  finally show ?case
    using enqueued_Cons [of e es c] by simp
qed

lemma step_Exhausted: "pc c = Exhausted \<Longrightarrow> pc (step e c) = Exhausted \<and> yielded (step e c) = yielded c"
  by (cases e) simp_all

lemma run_Exhausted: "pc c = Exhausted \<Longrightarrow> pc (run es c) = Exhausted \<and> yielded (run es c) = yielded c"
proof (induction es arbitrary: c)
  case Nil
  then show ?case by simp
next
  case (Cons e es)
  from Cons.prems have "pc (step e c) = Exhausted" and "yielded (step e c) = yielded c"
    using step_Exhausted by blast+
  with Cons.IH [of "step e c"] show ?case by simp
qed


lemma drain_queue:
  "is_recording (streamer c) \<Longrightarrow> pc c = AtWhile \<Longrightarrow> audio_queue (streamer c) = q \<Longrightarrow>
   yielded (run (replicate (2 * length q) Gen) c) = yielded c @ q \<and>
   audio_queue (streamer (run (replicate (2 * length q) Gen) c)) = [] \<and>
   pc (run (replicate (2 * length q) Gen) c) = AtWhile \<and>
   is_recording (streamer (run (replicate (2 * length q) Gen) c))"
proof (induction q arbitrary: c)
  case Nil
  then show ?case by simp
next
  case (Cons x q)
  let ?c2 = "gen_step (gen_step c)"
  have c2: "is_recording (streamer ?c2)" "pc ?c2 = AtWhile" "audio_queue (streamer ?c2) = q"
    "yielded ?c2 = yielded c @ [x]"
    using Cons.prems by simp_all
  have "run (replicate (2 * length (x # q)) Gen) c = run (replicate (2 * length q) Gen) ?c2"
    by simp
  with Cons.IH [OF c2(1-3)] c2(4) show ?case
    by simp
qed

text \<open>
  C1, as the code has it. The generator ends in exactly one way: it is at the loop test
  and reads the flag as clear; what the queue holds plays no part. Until then every
  queued frame is yielded: a \<^verbatim>\<open>get\<close> on a non-empty queue takes the oldest frame off the
  queue and yields it, and from the loop test with the flag set, two steps for each
  queued frame yield the whole queue in order and leave it empty. Along every schedule
  the chunks yielded so far, followed by the frames still queued, are the frames that
  were queued at the start followed by those the callback accepted, in that order: no
  frame is skipped, repeated or reordered. After the generator has ended, nothing more
  is yielded, so the frames that were in the queue when the flag was read as clear stay
  there.
\<close>

theorem generator_ends_on_flag_alone:
  "(pc c \<noteq> Exhausted \<and> pc (step ev c) = Exhausted \<longleftrightarrow>
      ev = Gen \<and> pc c = AtWhile \<and> \<not> is_recording (streamer c)) \<and>
   (pc c = AtGet \<and> audio_queue (streamer c) = chunk # rest \<longrightarrow>
      gen_step c = c\<lparr>streamer := (streamer c)\<lparr>audio_queue := rest\<rparr>,
                     yielded := yielded c @ [chunk], pc := AtWhile\<rparr>) \<and>
   (pc c = AtWhile \<and> is_recording (streamer c) \<longrightarrow>
      yielded (run (replicate (2 * length (audio_queue (streamer c))) Gen) c) =
        yielded c @ audio_queue (streamer c) \<and>
      audio_queue (streamer (run (replicate (2 * length (audio_queue (streamer c))) Gen) c)) = [] \<and>
      pc (run (replicate (2 * length (audio_queue (streamer c))) Gen) c) = AtWhile) \<and>
   yielded (run es c) @ audio_queue (streamer (run es c)) =
     yielded c @ audio_queue (streamer c) @ enqueued es c \<and>
   (pc c = Exhausted \<longrightarrow>
      pc (run es c) = Exhausted \<and> yielded (run es c) = yielded c)"
proof (intro conjI)
  show "pc c \<noteq> Exhausted \<and> pc (step ev c) = Exhausted \<longleftrightarrow>
      ev = Gen \<and> pc c = AtWhile \<and> \<not> is_recording (streamer c)"
    by (cases ev) (auto split: gen_pc.splits list.splits)
  show "pc c = AtGet \<and> audio_queue (streamer c) = chunk # rest \<longrightarrow>
      gen_step c = c\<lparr>streamer := (streamer c)\<lparr>audio_queue := rest\<rparr>,
                     yielded := yielded c @ [chunk], pc := AtWhile\<rparr>"
    by simp
  show "pc c = AtWhile \<and> is_recording (streamer c) \<longrightarrow>
      yielded (run (replicate (2 * length (audio_queue (streamer c))) Gen) c) =
        yielded c @ audio_queue (streamer c) \<and>
      audio_queue (streamer (run (replicate (2 * length (audio_queue (streamer c))) Gen) c)) = [] \<and>
      pc (run (replicate (2 * length (audio_queue (streamer c))) Gen) c) = AtWhile"
    using drain_queue [of c "audio_queue (streamer c)"] by blast
  show "yielded (run es c) @ audio_queue (streamer (run es c)) =
     yielded c @ audio_queue (streamer c) @ enqueued es c"
    by (rule run_fifo)
  show "pc c = Exhausted \<longrightarrow> pc (run es c) = Exhausted \<and> yielded (run es c) = yielded c"
    using run_Exhausted by blast
qed

theorem generator_ends_on_flag_alone_witness:
  "yielded (run [Callback ''a'', Callback ''b'', Gen, Gen, Gen, Gen]
      (audio_generator (start_stream init_streamer))) = [''a'', ''b''] \<and>
   audio_queue (streamer (run [Callback ''a'', Callback ''b'', Gen, Gen, Gen, Gen]
      (audio_generator (start_stream init_streamer)))) = [] \<and>
   pc (run [Callback ''a'', Callback ''b'', Gen]
      (audio_generator (start_stream init_streamer))) = AtGet \<and>
   yielded (run [Callback ''a'', Callback ''b'', Gen, Gen]
      (audio_generator (start_stream init_streamer))) = [''a''] \<and>
   audio_queue (streamer (run [Callback ''a'', Callback ''b'', Gen, Gen]
      (audio_generator (start_stream init_streamer)))) = [''b''] \<and>
   pc (run [Callback ''a'', Callback ''b'', Gen, Gen, Gen, Gen, Callback ''c'', StopStream, Gen]
      (audio_generator (start_stream init_streamer))) = Exhausted \<and>
   yielded (run [Callback ''a'', Callback ''b'', Gen, Gen, Gen, Gen, Callback ''c'', StopStream, Gen,
                 Callback ''d'', Gen, Gen]
      (audio_generator (start_stream init_streamer))) = [''a'', ''b''] \<and>
   audio_queue (streamer (run [Callback ''a'', Callback ''b'', Gen, Gen, Gen, Gen, Callback ''c'',
                 StopStream, Gen, Callback ''d'', Gen, Gen]
      (audio_generator (start_stream init_streamer)))) = [''c'']"
proof -
  let ?c0 = "audio_generator (start_stream init_streamer)"
  let ?c1 = "run [Callback ''a'', Callback ''b''] ?c0"
  let ?c2 = "run [Callback ''a'', Callback ''b'', Gen] ?c0"
  let ?c3 = "run [Callback ''a'', Callback ''b'', Gen, Gen, Gen, Gen, Callback ''c'', StopStream, Gen] ?c0"
  have c1: "pc ?c1 = AtWhile" "is_recording (streamer ?c1)"
    "audio_queue (streamer ?c1) = [''a'', ''b'']" "yielded ?c1 = []"
    by (simp_all add: audio_generator_def start_stream_def init_streamer_def audio_callback_def)
  have c2: "pc ?c2 = AtGet" "audio_queue (streamer ?c2) = ''a'' # [''b'']" "yielded ?c2 = []"
    by (simp_all add: audio_generator_def start_stream_def init_streamer_def audio_callback_def)
  have c3: "pc ?c3 = Exhausted" "yielded ?c3 = [''a'', ''b'']"
    by (simp_all add: audio_generator_def start_stream_def init_streamer_def audio_callback_def
          stop_stream_def)
  have four: "replicate (2 * length [''a'', ''b'']) Gen = [Gen, Gen, Gen, Gen]"
    by (simp add: eval_nat_numeral)
  have r1: "run [Callback ''a'', Callback ''b'', Gen, Gen, Gen, Gen] ?c0 = run [Gen, Gen, Gen, Gen] ?c1"
    using run_append [of "[Callback ''a'', Callback ''b'']" "[Gen, Gen, Gen, Gen]" ?c0]
    by (simp only: append.simps)
  have r2: "run [Callback ''a'', Callback ''b'', Gen, Gen] ?c0 = run [Gen] ?c2"
    using run_append [of "[Callback ''a'', Callback ''b'', Gen]" "[Gen]" ?c0]
    by (simp only: append.simps)
  have r2': "run [Gen] ?c2 = gen_step ?c2"
    by (simp only: run.simps step.simps)
  have r3: "run [Callback ''a'', Callback ''b'', Gen, Gen, Gen, Gen, Callback ''c'', StopStream, Gen,
                 Callback ''d'', Gen, Gen] ?c0 = run [Callback ''d'', Gen, Gen] ?c3"
    using run_append [of "[Callback ''a'', Callback ''b'', Gen, Gen, Gen, Gen, Callback ''c'',
      StopStream, Gen]" "[Callback ''d'', Gen, Gen]" ?c0]
    by (simp only: append.simps)
  note drain = generator_ends_on_flag_alone [of ?c1 Gen "''a''" "[]" "[]",
      THEN conjunct2, THEN conjunct2, THEN conjunct1, rule_format, OF conjI [OF c1(1) c1(2)]]
  have drained: "yielded (run [Gen, Gen, Gen, Gen] ?c1) = [''a'', ''b'']"
    "audio_queue (streamer (run [Gen, Gen, Gen, Gen] ?c1)) = []"
    using drain unfolding c1(3) c1(4) four by (simp_all only: append.simps)
  note take = generator_ends_on_flag_alone [of ?c2 Gen "''a''" "[''b'']" "[]",
      THEN conjunct2, THEN conjunct1, rule_format, OF conjI [OF c2(1) c2(2)]]
  have sel: "yielded (c\<lparr>streamer := (streamer c)\<lparr>audio_queue := q\<rparr>, yielded := y, pc := p\<rparr>) = y"
    "audio_queue (streamer (c\<lparr>streamer := (streamer c)\<lparr>audio_queue := q\<rparr>,
       yielded := y, pc := p\<rparr>)) = q" for c :: capture and q y p
    by simp_all
  have taken: "yielded (gen_step ?c2) = [''a'']" "audio_queue (streamer (gen_step ?c2)) = [''b'']"
    unfolding take sel c2(3) by (simp_all only: append.simps)
  note stay = generator_ends_on_flag_alone [of ?c3 Gen "''a''" "[]" "[Callback ''d'', Gen, Gen]",
      THEN conjunct2, THEN conjunct2, THEN conjunct2, THEN conjunct2, rule_format, OF c3(1)]
  have after: "yielded (run [Callback ''d'', Gen, Gen] ?c3) = [''a'', ''b'']"
    using stay c3(2) by (simp only:)
  have q3: "audio_queue (streamer (run [Callback ''a'', Callback ''b'', Gen, Gen, Gen, Gen,
      Callback ''c'', StopStream, Gen, Callback ''d'', Gen, Gen] ?c0)) = [''c'']"
    by (simp add: audio_generator_def start_stream_def init_streamer_def audio_callback_def
          stop_stream_def)
  show ?thesis
    using drained [folded r1] taken [folded r2' r2] after [folded r3] c2(1) c3(1) q3
    by (intro conjI)
qed

text \<open>
  C1, as the specification states it, fails: capture is active, the callback queues one
  frame, \<^verbatim>\<open>stop_stream\<close> clears the flag, and the generator's next step is the loop
  test. The generator ends although the queue holds the frame, which is never yielded.
\<close>

theorem generator_drops_queued_frame:
  "pc (run [Callback ''frame-1'', StopStream, Gen]
         (audio_generator (start_stream init_streamer))) = Exhausted \<and>
   audio_queue (streamer (run [Callback ''frame-1'', StopStream, Gen]
         (audio_generator (start_stream init_streamer)))) = [''frame-1''] \<and>
   yielded (run [Callback ''frame-1'', StopStream, Gen]
         (audio_generator (start_stream init_streamer))) = []"
  by (simp add: audio_generator_def start_stream_def init_streamer_def audio_callback_def
        stop_stream_def)

lemma poll_empty_queue:
  assumes "is_recording (streamer c)" "audio_queue (streamer c) = []" "pc c \<noteq> Exhausted"
  shows "pc (run (replicate n Gen) c) \<noteq> Exhausted \<and>
         streamer (run (replicate n Gen) c) = streamer c \<and>
         yielded (run (replicate n Gen) c) = yielded c"
  using assms
proof (induction n arbitrary: c)
  case 0
  then show ?case by simp
next
  case (Suc n)
  have "pc (gen_step c) \<noteq> Exhausted" "streamer (gen_step c) = streamer c"
    "yielded (gen_step c) = yielded c"
    using Suc.prems by (auto split: gen_pc.splits)
  with Suc.IH [of "gen_step c"] Suc.prems show ?case by simp
qed

text \<open>
  C8. In \<^verbatim>\<open>get\<close> with an empty queue the waiting time runs out: the generator returns
  to the loop test, it has not ended and has yielded nothing new. While capture is active
  and no frame arrives, any number of further steps only alternate between the loop
  test and \<^verbatim>\<open>get\<close>: the generator never ends and its state is otherwise unchanged.
\<close>

theorem timeout_repolls:
  assumes "pc c = AtGet" and "audio_queue (streamer c) = []"
  shows "gen_step c = c\<lparr>pc := AtWhile\<rparr> \<and>
         (is_recording (streamer c) \<longrightarrow>
            gen_step (gen_step c) = c \<and>
            pc (run (replicate n Gen) c) \<noteq> Exhausted \<and>
            streamer (run (replicate n Gen) c) = streamer c \<and>
            yielded (run (replicate n Gen) c) = yielded c)"
proof (intro conjI impI)
  show "gen_step c = c\<lparr>pc := AtWhile\<rparr>"
    using assms by simp
  assume rec: "is_recording (streamer c)"
  show "gen_step (gen_step c) = c"
    using assms rec by simp
  have "pc c \<noteq> Exhausted"
    using assms by simp
  from poll_empty_queue [OF rec assms(2) this, of n]
  show "pc (run (replicate n Gen) c) \<noteq> Exhausted"
    and "streamer (run (replicate n Gen) c) = streamer c"
    and "yielded (run (replicate n Gen) c) = yielded c"
    by simp_all
qed

theorem timeout_repolls_witness:
  "pc (gen_step (audio_generator (start_stream init_streamer))) = AtGet \<and>
   audio_queue (streamer (gen_step (audio_generator (start_stream init_streamer)))) = [] \<and>
   is_recording (streamer (gen_step (audio_generator (start_stream init_streamer)))) \<and>
   pc (run (replicate 5 Gen) (gen_step (audio_generator (start_stream init_streamer)))) \<noteq> Exhausted \<and>
   yielded (run (replicate 5 Gen) (gen_step (audio_generator (start_stream init_streamer)))) = []"
proof -
  let ?c = "gen_step (audio_generator (start_stream init_streamer))"
  have h1: "pc ?c = AtGet" and h2: "audio_queue (streamer ?c) = []"
    and h3: "is_recording (streamer ?c)" and h4: "yielded ?c = []"
    by (simp_all add: audio_generator_def start_stream_def init_streamer_def)
  from timeout_repolls [OF h1 h2, of 5] h1 h2 h3 h4 show ?thesis
    by simp
qed

lemma step_not_recording:
  "\<not> is_recording (streamer c) \<Longrightarrow>
   \<not> is_recording (streamer (step ev c)) \<and> enqueued [ev] c = []"
  by (cases ev)
     (simp_all add: audio_callback_def stop_stream_def Let_def
        split: gen_pc.split list.split option.split)

lemma enqueued_not_recording: "\<not> is_recording (streamer c) \<Longrightarrow> enqueued es c = []"
proof (induction es arbitrary: c)
  case Nil
  show ?case by simp
next
  case (Cons ev es)
  from step_not_recording [OF Cons.prems, of ev]
  have "\<not> is_recording (streamer (step ev c))" and "enqueued [ev] c = []"
    by simp_all
  with Cons.IH [of "step ev c"] enqueued_Cons [of ev es c] show ?case
    by simp
qed

text \<open>
  C9. \<^verbatim>\<open>stop_stream\<close> leaves the flag clear. A callback invoked while the flag is clear
  changes nothing of the streamer, in particular not the queue; and on every schedule
  that follows \<^verbatim>\<open>stop_stream\<close> the callback accepts no frame at all.
\<close>

theorem no_enqueue_after_stop:
  "\<not> is_recording (stop_stream s) \<and>
   (\<not> is_recording s \<longrightarrow> snd (audio_callback in_data s) = s) \<and>
   audio_queue (snd (audio_callback in_data (stop_stream s))) = audio_queue (stop_stream s) \<and>
   enqueued es (step StopStream c) = []"
proof (intro conjI)
  show off: "\<not> is_recording (stop_stream s)"
    by (simp add: stop_stream_def Let_def split: option.split)
  show "\<not> is_recording s \<longrightarrow> snd (audio_callback in_data s) = s"
    by (simp add: audio_callback_def)
  show "audio_queue (snd (audio_callback in_data (stop_stream s))) = audio_queue (stop_stream s)"
    using off by (simp add: audio_callback_def)
  have "\<not> is_recording (streamer (step StopStream c))"
    by (simp add: stop_stream_def Let_def split: option.split)
  then show "enqueued es (step StopStream c) = []"
    by (rule enqueued_not_recording)
qed

theorem no_enqueue_after_stop_witness:
  "\<not> is_recording init_streamer \<and>
   snd (audio_callback ''late frame'' init_streamer) = init_streamer"
  using no_enqueue_after_stop [of init_streamer "''late frame''" "[]" "audio_generator init_streamer"]
  by (simp add: init_streamer_def)

section \<open>Properties of recognition, commit and log\<close>

lemmas prog_defs = bind_def return_def raise_def modify_def gets_def

subsection \<open>The operations when no interrupt is pending\<close>

lemma tick_calm: "interrupt_in w = None \<Longrightarrow> tick w = (Inr (), w)"
  by (simp add: tick_def)

lemma print_calm:
  "interrupt_in w = None \<Longrightarrow>
   print text end_text w = (Inr (), w\<lparr>console := console w @ [text @ end_text]\<rparr>)"
  by (simp add: print_def tick_def prog_defs)

lemma file_write_calm:
  "interrupt_in w = None \<Longrightarrow> output_file w = Some f \<Longrightarrow> \<not> closed f \<Longrightarrow>
   file_write text w = (Inr (), w\<lparr>output_file := Some (f\<lparr>buffer := buffer f @ text\<rparr>)\<rparr>)"
  by (simp add: file_write_def tick_def prog_defs)

lemma file_flush_calm:
  "interrupt_in w = None \<Longrightarrow> output_file w = Some f \<Longrightarrow> \<not> closed f \<Longrightarrow>
   file_flush w =
     (Inr (), w\<lparr>output_file := Some (f\<lparr>persisted := persisted f @ buffer f, buffer := []\<rparr>)\<rparr>)"
  by (simp add: file_flush_def tick_def prog_defs)

lemma file_close_calm:
  "interrupt_in w = None \<Longrightarrow> output_file w = Some f \<Longrightarrow> \<not> closed f \<Longrightarrow>
   file_close w =
     (Inr (), w\<lparr>output_file :=
        Some (f\<lparr>persisted := persisted f @ buffer f, buffer := [], closed := True\<rparr>)\<rparr>)"
  by (simp add: file_close_def tick_def prog_defs)

lemma translate_text_calm:
  "interrupt_in w = None \<Longrightarrow>
   translate_text self e text w =
     (Inr (translated_field self e (length (translate_calls w)) text),
      w\<lparr>translate_calls := translate_calls w @
           [(text, target_language self, split_first (source_language self))]\<rparr>)"
  by (simp add: translate_text_def client_translate_def try_except_def tick_def prog_defs
        translated_field_def split: sum.split)

subsection \<open>One result\<close>

lemma handle_result_final_translate_calm:
  assumes "interrupt_in w = None" "output_file w = Some f" "\<not> closed f"
    "alternatives r = t # alts" "is_final r"
  shows "\<exists>w'. handle_result self e True r w = (Inr (), w') \<and> interrupt_in w' = None \<and>
     output_file w' = Some (f\<lparr>persisted := persisted f @ buffer f @
        concat (segment_lines self (strftime_HMS (now e (clock_reads w))) (Suc (segment_count w)) t
                 (translated_field self e (length (translate_calls w)) t)), buffer := []\<rparr>) \<and>
     segment_count w' = Suc (segment_count w) \<and> clock_reads w' = Suc (clock_reads w) \<and>
     translate_calls w' = translate_calls w @
       [(t, target_language self, split_first (source_language self))] \<and>
     output_filename w' = output_filename w"
  using assms
  by (simp add: handle_result_def first_transcript_def prog_defs datetime_now_def
        Let_def print_calm translate_text_calm if_output_file_def segment_lines_def
        file_write_calm file_flush_calm)

lemma handle_result_interim_calm:
  assumes "interrupt_in w = None" "alternatives r = t # alts" "\<not> is_final r"
  shows "handle_result self e te r w =
     (Inr (), w\<lparr>console := console w @ [(thought_balloon @ '' '' @ t) @ cr]\<rparr>)"
  using assms
  by (simp add: handle_result_def first_transcript_def prog_defs print_calm)

subsection \<open>The loops, with translation and an open log\<close>

lemma finals_append: "finals (rs @ rs') = finals rs @ finals rs'"
  by (simp add: finals_def)

lemma entries_append:
  "entries self e n c k (ts @ us) =
   entries self e n c k ts @ entries self e (n + length ts) (c + length ts) (k + length ts) us"
  by (induction ts arbitrary: n c k) simp_all

lemma entries_indexed:
  "entries self e n c k ts =
   concat (map (\<lambda>i. concat (segment_lines self (strftime_HMS (now e (c + i))) (Suc (n + i)) (ts ! i)
                              (translated_field self e (k + i) (ts ! i))))
               [0..<length ts])"
proof (induction ts arbitrary: n c k)
  case Nil
  show ?case by simp
next
  case (Cons t ts)
  have "[0..<Suc (length ts)] = 0 # map Suc [0..<length ts]"
    by (metis map_Suc_upt upt_conv_Cons zero_less_Suc)
  then show ?case
    using Cons.IH [of "Suc n" "Suc c" "Suc k"] by (simp add: comp_def)
qed

lemma for_results_translate_calm:
  assumes "interrupt_in w = None" "output_file w = Some f" "\<not> closed f" "buffer f = []"
    "\<forall>r\<in>set rs. alternatives r \<noteq> []"
  shows "\<exists>w'. for_results self e True rs w = (Inr (), w') \<and> interrupt_in w' = None \<and>
     output_file w' = Some (f\<lparr>persisted := persisted f @
        entries self e (segment_count w) (clock_reads w) (length (translate_calls w)) (finals rs)\<rparr>) \<and>
     segment_count w' = segment_count w + length (finals rs) \<and>
     clock_reads w' = clock_reads w + length (finals rs) \<and>
     length (translate_calls w') = length (translate_calls w) + length (finals rs) \<and>
     output_filename w' = output_filename w"
  using assms
proof (induction rs arbitrary: w f)
  case Nil
  then show ?case by (simp add: return_def finals_def)
next
  case (Cons r rs)
  from Cons.prems obtain t alts where alt: "alternatives r = t # alts"
    by (cases "alternatives r") auto
  show ?case
  proof (cases "is_final r")
    case True
    let ?f1 = "f\<lparr>persisted := persisted f @ buffer f @
        concat (segment_lines self (strftime_HMS (now e (clock_reads w))) (Suc (segment_count w)) t
                 (translated_field self e (length (translate_calls w)) t)), buffer := []\<rparr>"
    from handle_result_final_translate_calm [OF Cons.prems(1-3) alt True, of self e]
    obtain w1 where w1: "handle_result self e True r w = (Inr (), w1)" "interrupt_in w1 = None"
      "output_file w1 = Some ?f1"
      "segment_count w1 = Suc (segment_count w)" "clock_reads w1 = Suc (clock_reads w)"
      "translate_calls w1 = translate_calls w @
         [(t, target_language self, split_first (source_language self))]"
      "output_filename w1 = output_filename w"
      by blast
    have "\<not> closed ?f1" "buffer ?f1 = []"
      using Cons.prems by simp_all
    from Cons.IH [OF w1(2) w1(3) this] Cons.prems(5)
    obtain w' where w': "for_results self e True rs w1 = (Inr (), w')" "interrupt_in w' = None"
      "output_file w' = Some (?f1\<lparr>persisted := persisted ?f1 @
        entries self e (segment_count w1) (clock_reads w1) (length (translate_calls w1)) (finals rs)\<rparr>)"
      "segment_count w' = segment_count w1 + length (finals rs)"
      "clock_reads w' = clock_reads w1 + length (finals rs)"
      "length (translate_calls w') = length (translate_calls w1) + length (finals rs)"
      "output_filename w' = output_filename w1"
      by auto
    have fin: "finals (r # rs) = t # finals rs"
      using True alt by (simp add: finals_def transcript_def)
    show ?thesis
      using w1 w' Cons.prems(4) by (simp add: bind_def fin)
  next
    case False
    have fin: "finals (r # rs) = finals rs"
      using False by (simp add: finals_def)
    let ?w1 = "w\<lparr>console := console w @ [(thought_balloon @ '' '' @ t) @ cr]\<rparr>"
    have "interrupt_in ?w1 = None" "output_file ?w1 = Some f"
      using Cons.prems by simp_all
    from Cons.IH [OF this Cons.prems(3,4)] Cons.prems(5)
    show ?thesis
      using handle_result_interim_calm [OF Cons.prems(1) alt False, of self e True]
      by (simp add: bind_def fin)
  qed
qed

lemma for_responses_translate_calm:
  assumes "interrupt_in w = None" "output_file w = Some f" "\<not> closed f" "buffer f = []"
    "\<forall>resp\<in>set rsps. \<forall>r\<in>set resp. alternatives r \<noteq> []"
  shows "\<exists>w'. for_responses self e True rsps err w =
        ((case err of None \<Rightarrow> Inr () | Some msg \<Rightarrow> Inl (Error msg)), w') \<and>
     interrupt_in w' = None \<and>
     output_file w' = Some (f\<lparr>persisted := persisted f @
        entries self e (segment_count w) (clock_reads w) (length (translate_calls w))
          (finals (concat rsps))\<rparr>) \<and>
     segment_count w' = segment_count w + length (finals (concat rsps)) \<and>
     clock_reads w' = clock_reads w + length (finals (concat rsps)) \<and>
     output_filename w' = output_filename w"
  using assms
proof (induction rsps arbitrary: w f)
  case Nil
  then show ?case
    by (simp add: tick_calm prog_defs finals_def split: option.split)
next
  case (Cons resp rsps)
  let ?f1 = "f\<lparr>persisted := persisted f @
        entries self e (segment_count w) (clock_reads w) (length (translate_calls w)) (finals resp)\<rparr>"
  have "\<forall>r\<in>set resp. alternatives r \<noteq> []"
    using Cons.prems(5) by simp
  from for_results_translate_calm [OF Cons.prems(1-4) this, of self e]
  obtain w1 where w1: "for_results self e True resp w = (Inr (), w1)" "interrupt_in w1 = None"
    "output_file w1 = Some ?f1"
    "segment_count w1 = segment_count w + length (finals resp)"
    "clock_reads w1 = clock_reads w + length (finals resp)"
    "length (translate_calls w1) = length (translate_calls w) + length (finals resp)"
    "output_filename w1 = output_filename w"
    by blast
  have "\<not> closed ?f1" "buffer ?f1 = []"
    using Cons.prems by simp_all
  from Cons.IH [OF w1(2) w1(3) this] Cons.prems(5)
  obtain w' where w': "for_responses self e True rsps err w1 =
        ((case err of None \<Rightarrow> Inr () | Some msg \<Rightarrow> Inl (Error msg)), w')"
    "interrupt_in w' = None"
    "output_file w' = Some (?f1\<lparr>persisted := persisted ?f1 @
        entries self e (segment_count w1) (clock_reads w1) (length (translate_calls w1))
          (finals (concat rsps))\<rparr>)"
    "segment_count w' = segment_count w1 + length (finals (concat rsps))"
    "clock_reads w' = clock_reads w1 + length (finals (concat rsps))"
    "output_filename w' = output_filename w1"
    by auto
  show ?case
    using w1 w' Cons.prems(1) by (simp add: bind_def tick_calm entries_append finals_append)
qed

subsection \<open>Opening and closing the log\<close>

lemma open_output_file_calm:
  assumes "interrupt_in w = None"
  shows "\<exists>w'. open_output_file self e w = (Inr (), w') \<and> interrupt_in w' = None \<and>
     output_file w' =
       Some \<lparr>file_name = ''results/live_translation_'' @ strftime_Ymd_HMS (now e (clock_reads w)) @ ''.txt'',
         buffer = [], persisted = concat (header_lines self (now e (Suc (clock_reads w)))),
         closed = False\<rparr> \<and>
     output_filename w' =
       Some (''results/live_translation_'' @ strftime_Ymd_HMS (now e (clock_reads w)) @ ''.txt'') \<and>
     clock_reads w' = clock_reads w + 2 \<and> translate_calls w' = translate_calls w"
  using assms
  by (simp add: open_output_file_def prog_defs datetime_now_def Let_def file_open_def
        tick_calm header_lines_def file_write_calm file_flush_calm print_calm)

lemma close_output_file_calm:
  assumes "interrupt_in w = None" "output_file w = Some f" "\<not> closed f"
    "output_filename w = Some name"
  shows "\<exists>w'. close_output_file e w = (Inr (), w') \<and> interrupt_in w' = None \<and>
     output_file w' = Some (f\<lparr>persisted := persisted f @ buffer f @
         concat (trailer_lines (now e (clock_reads w)) (segment_count w)),
         buffer := [], closed := True\<rparr>) \<and>
     segment_count w' = segment_count w"
  using assms
  by (simp add: close_output_file_def if_output_file_def prog_defs datetime_now_def
        trailer_lines_def file_write_calm file_close_calm print_calm)

subsection \<open>A whole session without an interrupt\<close>

text \<open>
  With translation and saving enabled and no interrupt, the run returns normally, also
  when the recognizer's stream ends in an exception: the log is closed and holds the
  header, one entry for each final result, and the trailer with their number.
\<close>

lemma process_stream_translate_calm:
  assumes "interrupt_in w = None"
    "\<forall>resp\<in>set (responses e). \<forall>r\<in>set resp. alternatives r \<noteq> []"
  shows "\<exists>w'. process_stream self e True True w = (Inr (), w') \<and>
     output_file w' =
       Some \<lparr>file_name = ''results/live_translation_'' @ strftime_Ymd_HMS (now e (clock_reads w)) @ ''.txt'',
         buffer = [],
         persisted = concat (header_lines self (now e (Suc (clock_reads w)))) @
           entries self e 0 (clock_reads w + 2) (length (translate_calls w))
             (map transcript (final_results e)) @
           concat (trailer_lines (now e (clock_reads w + 2 + length (final_results e)))
             (length (final_results e))),
         closed = True\<rparr> \<and>
     segment_count w' = length (final_results e)"
proof -
  let ?w0 = "w\<lparr>output_filename := None\<rparr>"
  let ?name = "''results/live_translation_'' @ strftime_Ymd_HMS (now e (clock_reads w)) @ ''.txt''"
  let ?f1 = "\<lparr>file_name = ?name, buffer = [],
     persisted = concat (header_lines self (now e (Suc (clock_reads w)))), closed = False\<rparr>"
  let ?ts = "finals (concat (responses e))"
  have ts: "?ts = map transcript (final_results e)"
    by (simp add: finals_def final_results_def)
  have "interrupt_in ?w0 = None"
    using assms(1) by simp
  from open_output_file_calm [OF this, of self e]
  obtain w1 where w1: "open_output_file self e ?w0 = (Inr (), w1)" "interrupt_in w1 = None"
    "output_file w1 = Some ?f1" "output_filename w1 = Some ?name"
    "clock_reads w1 = clock_reads w + 2" "translate_calls w1 = translate_calls w"
    by auto
  let ?w2 = "w1\<lparr>console := console w1 @
     [(nl @ headphone @ '' Listening in '' @ source_language self @ ''...'') @ nl]\<rparr>"
  let ?w3 = "?w2\<lparr>console := console ?w2 @
     [(globe_meridians @ '' Translating to '' @ target_language self @ ''...'' @ nl) @ nl]\<rparr>"
  let ?w4 = "?w3\<lparr>segment_count := 0\<rparr>"
  let ?f5 = "?f1\<lparr>persisted := persisted ?f1 @
        entries self e (segment_count ?w4) (clock_reads ?w4) (length (translate_calls ?w4)) ?ts\<rparr>"
  have pre: "interrupt_in ?w4 = None" "output_file ?w4 = Some ?f1" "\<not> closed ?f1" "buffer ?f1 = []"
    using w1 by simp_all
  from for_responses_translate_calm [OF pre assms(2), of self e "stream_error e"]
  obtain w5 where w5: "for_responses self e True (responses e) (stream_error e) ?w4 =
        ((case stream_error e of None \<Rightarrow> Inr () | Some msg \<Rightarrow> Inl (Error msg)), w5)"
    "interrupt_in w5 = None"
    "output_file w5 = Some ?f5"
    "segment_count w5 = segment_count ?w4 + length ?ts"
    "clock_reads w5 = clock_reads ?w4 + length ?ts"
    "output_filename w5 = output_filename ?w4"
    by blast
  obtain w6 where w6:
    "try_except (for_responses self e True (responses e) (stream_error e))
       (\<lambda>msg. print (nl @ cross_mark @ '' Error: '' @ msg) nl) ?w4 = (Inr (), w6)"
    "interrupt_in w6 = None" "output_file w6 = Some ?f5" "segment_count w6 = segment_count w5"
    "clock_reads w6 = clock_reads w5" "output_filename w6 = Some ?name"
    using w5 w1(4) by (cases "stream_error e") (simp_all add: try_except_def print_calm)
  have "\<not> closed ?f5"
    by simp
  from close_output_file_calm [OF w6(2) w6(3) this w6(6), of e]
  obtain w7 where w7: "close_output_file e w6 = (Inr (), w7)"
    "output_file w7 = Some (?f5\<lparr>persisted := persisted ?f5 @ buffer ?f5 @
         concat (trailer_lines (now e (clock_reads w6)) (segment_count w6)),
         buffer := [], closed := True\<rparr>)"
    "segment_count w7 = segment_count w6"
    by blast
  have "process_stream self e True True w = (Inr (), w7)"
    using w1(1,2) w6(1) w7(1)
    by (simp add: process_stream_def prog_defs print_calm try_finally_def)
  then show ?thesis
    using w7 w6 w5 w1 by (simp add: ts)
qed

section \<open>The claims about commit and log\<close>

text \<open>
  C2. In a session with translation and saving enabled that no interrupt cuts short,
  in which every result carries an alternative, the run returns normally and the closed
  log holds, between header and trailer, exactly one entry for each final result, in
  the order received: the entry of the \<open>i\<close>-th final result (counting from 0) is
  headed \<^verbatim>\<open>Segment i+1\<close> and carries that result's transcript. The numbers therefore
  start at 1 and increase by one from entry to entry, whatever the counter held before
  the run; the counter ends at the number of final results.
\<close>

theorem segments_numbered_in_received_order:
  assumes "interrupt_in w = None"
    and "\<forall>resp\<in>set (responses e). \<forall>r\<in>set resp. alternatives r \<noteq> []"
  shows "\<exists>w' f. process_stream self e True True w = (Inr (), w') \<and>
     output_file w' = Some f \<and> closed f \<and>
     persisted f =
       concat (header_lines self (now e (Suc (clock_reads w)))) @
       concat (map (\<lambda>i. concat (segment_lines self
                      (strftime_HMS (now e (clock_reads w + 2 + i))) (Suc i)
                      (transcript (final_results e ! i))
                      (translated_field self e (length (translate_calls w) + i)
                         (transcript (final_results e ! i)))))
                 [0..<length (final_results e)]) @
       concat (trailer_lines (now e (clock_reads w + 2 + length (final_results e)))
                 (length (final_results e))) \<and>
     segment_count w' = length (final_results e)"
proof -
  from process_stream_translate_calm [OF assms, of self]
  obtain w' where w': "process_stream self e True True w = (Inr (), w')"
    "output_file w' =
       Some \<lparr>file_name = ''results/live_translation_'' @ strftime_Ymd_HMS (now e (clock_reads w)) @ ''.txt'',
         buffer = [],
         persisted = concat (header_lines self (now e (Suc (clock_reads w)))) @
           entries self e 0 (clock_reads w + 2) (length (translate_calls w))
             (map transcript (final_results e)) @
           concat (trailer_lines (now e (clock_reads w + 2 + length (final_results e)))
             (length (final_results e))),
         closed = True\<rparr>"
    "segment_count w' = length (final_results e)"
    by blast
  have "entries self e 0 (clock_reads w + 2) (length (translate_calls w))
          (map transcript (final_results e)) =
        concat (map (\<lambda>i. concat (segment_lines self
                      (strftime_HMS (now e (clock_reads w + 2 + i))) (Suc i)
                      (transcript (final_results e ! i))
                      (translated_field self e (length (translate_calls w) + i)
                         (transcript (final_results e ! i)))))
                 [0..<length (final_results e)])"
    unfolding entries_indexed by (intro arg_cong [where f = concat] map_cong) simp_all
  with w' show ?thesis
    by simp
qed

theorem segments_numbered_in_received_order_witness:
  "interrupt_in (fresh None) = None \<and>
   final_results example_env = [final_good_morning, final_let_us_pray] \<and>
   (\<exists>w' f. process_stream example_self example_env True True (fresh None) = (Inr (), w') \<and>
      output_file w' = Some f \<and> closed f \<and>
      persisted f =
        concat (header_lines example_self (example_clock 1)) @
        concat (segment_lines example_self (strftime_HMS (example_clock 2)) 1
                  ''Good morning everyone.'' ''Buenos dias a todos.'') @
        concat (segment_lines example_self (strftime_HMS (example_clock 3)) 2
                  ''Let us pray.'' ''[Translation error: quota exceeded]'') @
        concat (trailer_lines (example_clock 4) 2) \<and>
      segment_count w' = 2)"
proof -
  have fr: "final_results example_env = [final_good_morning, final_let_us_pray]"
    by (simp add: final_results_def example_env_def interim_good_def final_good_morning_def
          final_let_us_pray_def)
  have alts: "\<forall>resp\<in>set (responses example_env). \<forall>r\<in>set resp. alternatives r \<noteq> []"
    by (simp add: example_env_def interim_good_def final_good_morning_def final_let_us_pray_def)
  have calm: "interrupt_in (fresh None) = None"
    by (simp add: fresh_def)
  have up: "[0..<2] = [0, Suc 0]"
    by (simp add: numeral_2_eq_2)
  have nw: "now example_env = example_clock"
    and cl: "translate_client example_env = example_client"
    by (simp_all add: example_env_def)
  show ?thesis
    using segments_numbered_in_received_order [OF calm alts, of example_self] calm
    by (simp add: fr up nw cl fresh_def transcript_def final_good_morning_def
          final_let_us_pray_def translated_field_def example_client_def eval_nat_numeral)
qed

text \<open>
  C3 fails on the code when the operator's interrupt arrives while a final result is
  being committed. In the example session the interrupt is delivered at the fifteenth
  input or output operation, the call of the translation client for the first final
  result: \<^verbatim>\<open>segment_count\<close> has been incremented, \<^verbatim>\<open>except Exception\<close> lets the
  \<^verbatim>\<open>KeyboardInterrupt\<close> pass, and the \<^verbatim>\<open>finally\<close> block closes the log. The log then
  consists of the header and the trailer alone, and the trailer reports one segment.
\<close>

theorem interrupt_in_translation_miscounts:
  "fst (process_stream example_self example_env True True (fresh (Some 14))) = Inl KeyboardInterrupt \<and>
   map_option closed
     (output_file (snd (process_stream example_self example_env True True (fresh (Some 14))))) =
     Some True \<and>
   map_option persisted
     (output_file (snd (process_stream example_self example_env True True (fresh (Some 14))))) =
     Some (concat (header_lines example_self (example_clock 1)) @
           concat (trailer_lines (example_clock 3) 1))"
  by (simp add: process_stream_def example_env_def example_self_def fresh_def prog_defs
      interim_good_def final_good_morning_def final_let_us_pray_def
      open_output_file_def datetime_now_def Let_def file_open_def tick_def header_lines_def
      file_write_def file_flush_def print_def try_finally_def try_except_def
      handle_result_def first_transcript_def translate_text_def client_translate_def
      close_output_file_def if_output_file_def trailer_lines_def file_close_def
      example_clock_def numeral_3_eq_3)

text \<open>
  C4. With the log open and no interrupt pending, a final result whose translation call
  raises is committed all the same: the commit returns normally, the counter is
  incremented, and the flushed entry carries the bracketed error text in its
  translation line. A final result that follows it in the same response is committed
  with the next number.
\<close>

theorem translation_failure_is_local:
  assumes "interrupt_in w = None" and "output_file w = Some f" and "\<not> closed f"
    and "is_final r" and "alternatives r = t # alts"
    and "translate_client e (length (translate_calls w)) t (target_language self)
           (split_first (source_language self)) = Inl msg"
    and "is_final r'" and "alternatives r' = t' # alts'"
  shows "\<exists>w1 w2. handle_result self e True r w = (Inr (), w1) \<and>
     segment_count w1 = Suc (segment_count w) \<and>
     output_file w1 = Some (f\<lparr>persisted := persisted f @ buffer f @
        concat (segment_lines self (strftime_HMS (now e (clock_reads w))) (Suc (segment_count w)) t
                 (''[Translation error: '' @ msg @ '']'')), buffer := []\<rparr>) \<and>
     for_results self e True [r, r'] w = (Inr (), w2) \<and>
     segment_count w2 = Suc (Suc (segment_count w)) \<and>
     output_file w2 = Some (f\<lparr>persisted := persisted f @ buffer f @
        concat (segment_lines self (strftime_HMS (now e (clock_reads w))) (Suc (segment_count w)) t
                 (''[Translation error: '' @ msg @ '']'')) @
        concat (segment_lines self (strftime_HMS (now e (Suc (clock_reads w))))
                 (Suc (Suc (segment_count w))) t'
                 (translated_field self e (Suc (length (translate_calls w))) t')), buffer := []\<rparr>)"
proof -
  let ?entry = "concat (segment_lines self (strftime_HMS (now e (clock_reads w)))
     (Suc (segment_count w)) t (''[Translation error: '' @ msg @ '']''))"
  let ?f1 = "f\<lparr>persisted := persisted f @ buffer f @ ?entry, buffer := []\<rparr>"
  have tf: "translated_field self e (length (translate_calls w)) t = ''[Translation error: '' @ msg @ '']''"
    using assms(6) by (simp add: translated_field_def)
  from handle_result_final_translate_calm [OF assms(1-3) assms(5) assms(4), of self e]
  obtain w1 where w1: "handle_result self e True r w = (Inr (), w1)" "interrupt_in w1 = None"
    "output_file w1 = Some ?f1" "segment_count w1 = Suc (segment_count w)"
    "clock_reads w1 = Suc (clock_reads w)"
    "translate_calls w1 = translate_calls w @
       [(t, target_language self, split_first (source_language self))]"
    unfolding tf by blast
  have "\<not> closed ?f1"
    using assms(3) by simp
  from handle_result_final_translate_calm [OF w1(2) w1(3) this assms(8) assms(7), of self e]
  obtain w2 where w2: "handle_result self e True r' w1 = (Inr (), w2)"
    "output_file w2 = Some (?f1\<lparr>persisted := persisted ?f1 @ buffer ?f1 @
        concat (segment_lines self (strftime_HMS (now e (clock_reads w1))) (Suc (segment_count w1)) t'
                 (translated_field self e (length (translate_calls w1)) t')), buffer := []\<rparr>)"
    "segment_count w2 = Suc (segment_count w1)"
    by blast
  have "for_results self e True [r, r'] w = (Inr (), w2)"
    using w1(1) w2(1) by (simp add: prog_defs)
  with w1 w2 show ?thesis
    by simp
qed

theorem translation_failure_is_local_witness:
  "\<exists>w2. for_results example_self example_env True [final_let_us_pray, final_good_morning]
           (streaming None) = (Inr (), w2) \<and>
     segment_count w2 = 2 \<and>
     map_option persisted (output_file w2) =
       Some (concat (header_lines example_self (example_clock 1)) @
         concat (segment_lines example_self (strftime_HMS (example_clock 2)) 1
                  ''Let us pray.'' ''[Translation error: quota exceeded]'') @
         concat (segment_lines example_self (strftime_HMS (example_clock 3)) 2
                  ''Good morning everyone.'' ''Buenos dias a todos.''))"
proof -
  have h: "interrupt_in (streaming None) = None"
    "output_file (streaming None) = Some \<lparr>file_name = ''results/live_translation_20240517_093000.txt'',
         buffer = [], persisted = concat (header_lines example_self (example_clock 1)),
         closed = False\<rparr>"
    "\<not> closed \<lparr>file_name = ''results/live_translation_20240517_093000.txt'',
         buffer = [], persisted = concat (header_lines example_self (example_clock 1)),
         closed = False\<rparr>"
    "is_final final_let_us_pray" "alternatives final_let_us_pray = ''Let us pray.'' # []"
    "translate_client example_env (length (translate_calls (streaming None))) ''Let us pray.''
       (target_language example_self) (split_first (source_language example_self)) = Inl ''quota exceeded''"
    "is_final final_good_morning" "alternatives final_good_morning = ''Good morning everyone.'' # []"
    by (simp_all add: streaming_def final_let_us_pray_def final_good_morning_def example_env_def
          example_client_def)
  from translation_failure_is_local [OF h] show ?thesis
    by (auto simp add: streaming_def translated_field_def example_env_def example_client_def
          numeral_2_eq_2 numeral_3_eq_3)
qed

text \<open>
  C5. With the log open, the commit of a final result under translation writes the four
  lines of the entry and flushes: when no interrupt is pending the commit returns
  normally, and then the entry stands at the end of the persisted bytes, the buffer is
  empty and the file is still open. The flush is the last operation before the
  processing goes on: when the interrupt is delivered at the very next operation (the
  ninth of the commit, the separator printed on the console), the commit ends in
  \<^verbatim>\<open>KeyboardInterrupt\<close> and the persisted bytes hold the entry already.
\<close>

theorem segment_flushed_when_written:
  assumes "output_file w = Some f" and "\<not> closed f"
    and "is_final r" and "alternatives r = t # alts"
  shows
    "(interrupt_in w = None \<longrightarrow>
       (\<exists>w'. handle_result self e True r w = (Inr (), w') \<and>
          output_file w' = Some (f\<lparr>persisted := persisted f @ buffer f @
            concat (segment_lines self (strftime_HMS (now e (clock_reads w)))
                     (Suc (segment_count w)) t
                     (translated_field self e (length (translate_calls w)) t)),
            buffer := []\<rparr>))) \<and>
     (interrupt_in w = Some 8 \<longrightarrow>
        fst (handle_result self e True r w) = Inl KeyboardInterrupt \<and>
        output_file (snd (handle_result self e True r w)) =
          Some (f\<lparr>persisted := persisted f @ buffer f @
            concat (segment_lines self (strftime_HMS (now e (clock_reads w)))
                     (Suc (segment_count w)) t
                     (translated_field self e (length (translate_calls w)) t)),
            buffer := []\<rparr>))"
proof (intro conjI impI)
  assume "interrupt_in w = None"
  from handle_result_final_translate_calm [OF this assms(1,2,4,3), of self e]
  show "\<exists>w'. handle_result self e True r w = (Inr (), w') \<and>
          output_file w' = Some (f\<lparr>persisted := persisted f @ buffer f @
            concat (segment_lines self (strftime_HMS (now e (clock_reads w)))
                     (Suc (segment_count w)) t
                     (translated_field self e (length (translate_calls w)) t)),
            buffer := []\<rparr>)"
    by blast
next
  assume late: "interrupt_in w = Some 8"
  with assms show "fst (handle_result self e True r w) = Inl KeyboardInterrupt"
    by (simp add: handle_result_def first_transcript_def prog_defs datetime_now_def
          Let_def print_def tick_def translate_text_def client_translate_def try_except_def
          if_output_file_def segment_lines_def file_write_def file_flush_def split: sum.split)
  from assms late show "output_file (snd (handle_result self e True r w)) =
          Some (f\<lparr>persisted := persisted f @ buffer f @
            concat (segment_lines self (strftime_HMS (now e (clock_reads w)))
                     (Suc (segment_count w)) t
                     (translated_field self e (length (translate_calls w)) t)),
            buffer := []\<rparr>)"
    by (simp add: handle_result_def first_transcript_def prog_defs datetime_now_def
          Let_def print_def tick_def translate_text_def client_translate_def try_except_def
          translated_field_def if_output_file_def segment_lines_def file_write_def
          file_flush_def split: sum.split)
qed

theorem segment_flushed_when_written_witness:
  "(\<exists>w'. handle_result example_self example_env True final_good_morning (streaming None) =
          (Inr (), w') \<and>
      map_option closed (output_file w') = Some False \<and>
      map_option buffer (output_file w') = Some [] \<and>
      map_option persisted (output_file w') =
        Some (concat (header_lines example_self (example_clock 1)) @
          concat (segment_lines example_self (strftime_HMS (example_clock 2)) 1
                   ''Good morning everyone.'' ''Buenos dias a todos.''))) \<and>
   fst (handle_result example_self example_env True final_good_morning (streaming (Some 8))) =
     Inl KeyboardInterrupt \<and>
   map_option persisted
     (output_file (snd (handle_result example_self example_env True final_good_morning
        (streaming (Some 8))))) =
     Some (concat (header_lines example_self (example_clock 1)) @
       concat (segment_lines example_self (strftime_HMS (example_clock 2)) 1
                ''Good morning everyone.'' ''Buenos dias a todos.''))"
proof -
  let ?f = "\<lparr>file_name = ''results/live_translation_20240517_093000.txt'',
         buffer = [], persisted = concat (header_lines example_self (example_clock 1)),
         closed = False\<rparr>"
  have h: "output_file (streaming i) = Some ?f" "\<not> closed ?f"
    "is_final final_good_morning"
    "alternatives final_good_morning = ''Good morning everyone.'' # []" for i
    by (simp_all add: streaming_def final_good_morning_def)
  have tf: "translated_field example_self example_env 0 ''Good morning everyone.'' =
      ''Buenos dias a todos.''"
    by (simp add: translated_field_def example_env_def example_client_def)
  have st: "interrupt_in (streaming i) = i" "clock_reads (streaming i) = 2"
    "segment_count (streaming i) = 0" "translate_calls (streaming i) = []" for i
    by (simp_all add: streaming_def)
  have nw: "now example_env = example_clock"
    by (simp add: example_env_def)
  from segment_flushed_when_written [OF h, of None example_self example_env]
    segment_flushed_when_written [OF h, of "Some 8" example_self example_env]
  show ?thesis
    by (auto simp add: st tf nw)
qed

text \<open>
  C6, as the code has it. With no interrupt pending, the commit of a final result under
  translation makes exactly one call to the translation client, with the transcript,
  the configured target language unchanged, and the configured source language cut off
  before its first hyphen; without translation no call is made. A source language code
  without a hyphen is passed on unchanged; of a code with a hyphen only the part before
  it is passed.
\<close>

theorem translator_gets_primary_subtag:
  assumes "interrupt_in w = None" and "is_final r" and "alternatives r = t # alts"
  shows "translate_calls (snd (handle_result self e True r w)) =
           translate_calls w @ [(t, target_language self, split_first (source_language self))] \<and>
         translate_calls (snd (handle_result self e False r w)) = translate_calls w \<and>
         (CHR ''-'' \<notin> set (source_language self) \<longrightarrow>
            split_first (source_language self) = source_language self) \<and>
         (CHR ''-'' \<notin> set lang \<longrightarrow> split_first (lang @ ''-'' @ region) = lang)"
proof (intro conjI)
  show "translate_calls (snd (handle_result self e True r w)) =
           translate_calls w @ [(t, target_language self, split_first (source_language self))]"
  proof (cases "output_file w")
    case None
    with assms show ?thesis
      by (simp add: handle_result_def first_transcript_def prog_defs datetime_now_def
            Let_def print_calm translate_text_calm if_output_file_def)
  next
    case (Some f)
    show ?thesis
    proof (cases "closed f")
      case True
      with Some assms show ?thesis
        by (simp add: handle_result_def first_transcript_def prog_defs datetime_now_def
              Let_def print_calm translate_text_calm if_output_file_def segment_lines_def
              file_write_def tick_calm)
    next
      case False
      from handle_result_final_translate_calm [OF assms(1) Some False assms(3,2), of self e]
      show ?thesis
        by auto
    qed
  qed
  show "translate_calls (snd (handle_result self e False r w)) = translate_calls w"
  proof (cases "output_file w")
    case None
    with assms show ?thesis
      by (simp add: handle_result_def first_transcript_def prog_defs datetime_now_def
            Let_def print_calm if_output_file_def)
  next
    case (Some f)
    with assms show ?thesis
      by (cases "closed f")
         (simp_all add: handle_result_def first_transcript_def prog_defs datetime_now_def
            Let_def print_calm if_output_file_def file_write_calm file_flush_calm
            file_write_def tick_calm)
  qed
  show "CHR ''-'' \<notin> set (source_language self) \<longrightarrow>
            split_first (source_language self) = source_language self"
    by (auto simp add: split_first_def)
  show "CHR ''-'' \<notin> set lang \<longrightarrow> split_first (lang @ ''-'' @ region) = lang"
    by (auto simp add: split_first_def takeWhile_append)
qed

theorem translator_gets_primary_subtag_witness:
  "translate_calls (snd (handle_result example_self example_env True final_good_morning
     (streaming None))) = [(''Good morning everyone.'', ''es'', ''en'')] \<and>
   translate_calls (snd (handle_result example_self example_env False final_good_morning
     (streaming None))) = [] \<and>
   split_first ''es'' = ''es''"
proof -
  have h: "interrupt_in (streaming None) = None" "is_final final_good_morning"
    "alternatives final_good_morning = ''Good morning everyone.'' # []"
    by (simp_all add: streaming_def final_good_morning_def)
  from translator_gets_primary_subtag [OF h, of example_self example_env "''en''" "''US''"]
    translator_gets_primary_subtag [OF h,
      of "\<lparr>source_language = ''es'', target_language = ''en''\<rparr>" example_env "''en''" "''US''"]
  show ?thesis
    by (simp add: streaming_def example_self_def)
qed

text \<open>
  C6, as the specification states it, fails: the translator is configured with the
  source language \<^verbatim>\<open>en-US\<close>, and the client receives \<^verbatim>\<open>en\<close>.
\<close>

theorem translator_source_code_cut:
  "source_language example_self = ''en-US'' \<and>
   translate_calls (snd (translate_text example_self example_env ''Let us pray.'' (fresh None))) =
     [(''Let us pray.'', ''es'', ''en'')]"
  by (simp add: translate_text_calm fresh_def example_self_def split_first_def)

text \<open>
  C7. A result that is not final leaves the output file (buffer and persisted bytes),
  the segment counter, the calls to the translation client and the clock as they were,
  however the step ends and whether or not translation is enabled. With an alternative
  and no interrupt pending, all it does is print the transcript on the console, ended
  by a carriage return, so that the next output overwrites it.
\<close>

theorem interim_leaves_no_trace:
  assumes "\<not> is_final r"
  shows "output_file (snd (handle_result self e te r w)) = output_file w \<and>
         segment_count (snd (handle_result self e te r w)) = segment_count w \<and>
         translate_calls (snd (handle_result self e te r w)) = translate_calls w \<and>
         clock_reads (snd (handle_result self e te r w)) = clock_reads w \<and>
         (interrupt_in w = None \<and> alternatives r \<noteq> [] \<longrightarrow>
            handle_result self e te r w =
              (Inr (), w\<lparr>console := console w @ [(thought_balloon @ '' '' @ transcript r) @ cr]\<rparr>))"
proof -
  have "output_file (snd (handle_result self e te r w)) = output_file w \<and>
         segment_count (snd (handle_result self e te r w)) = segment_count w \<and>
         translate_calls (snd (handle_result self e te r w)) = translate_calls w \<and>
         clock_reads (snd (handle_result self e te r w)) = clock_reads w"
    using assms
    by (simp add: handle_result_def first_transcript_def prog_defs print_def tick_def
          split: list.split option.split nat.split)
  moreover have "handle_result self e te r w =
      (Inr (), w\<lparr>console := console w @ [(thought_balloon @ '' '' @ transcript r) @ cr]\<rparr>)"
    if "interrupt_in w = None" "alternatives r \<noteq> []"
  proof -
    from that(2) obtain t alts where alt: "alternatives r = t # alts"
      by (cases "alternatives r") auto
    from handle_result_interim_calm [OF that(1) alt assms] alt show ?thesis
      by (simp add: transcript_def)
  qed
  ultimately show ?thesis
    by blast
qed

theorem interim_leaves_no_trace_witness:
  "\<not> is_final interim_good \<and>
   output_file (snd (handle_result example_self example_env True interim_good (streaming None))) =
     output_file (streaming None) \<and>
   segment_count (snd (handle_result example_self example_env True interim_good (streaming None))) = 0 \<and>
   console (snd (handle_result example_self example_env True interim_good (streaming None))) =
     [thought_balloon @ '' Good'' @ cr]"
proof -
  have h: "\<not> is_final interim_good"
    by (simp add: interim_good_def)
  have "interrupt_in (streaming None) = None" "alternatives interim_good \<noteq> []"
    "transcript interim_good = ''Good''" "segment_count (streaming None) = 0"
    "console (streaming None) = []"
    by (simp_all add: streaming_def interim_good_def transcript_def)
  with interim_leaves_no_trace [OF h, of example_self example_env True "streaming None"] h
  show ?thesis
    by simp
qed

text \<open>
  C10. With the log open, translation disabled and no interrupt pending, the commit of
  a final result writes one text and flushes it: the bracketed time, a space, the
  transcript and an empty line. Nothing else reaches the file: no \<^verbatim>\<open>Segment\<close> line, no
  \<^verbatim>\<open>Original\<close> or \<^verbatim>\<open>Translation\<close> line, no separator. The counter is incremented and the
  translation client is not called.
\<close>

theorem transcript_only_entry:
  assumes "interrupt_in w = None" and "output_file w = Some f" and "\<not> closed f"
    and "is_final r" and "alternatives r = t # alts"
  shows "\<exists>w'. handle_result self e False r w = (Inr (), w') \<and>
     output_file w' = Some (f\<lparr>persisted := persisted f @ buffer f @
        ''['' @ strftime_HMS (now e (clock_reads w)) @ ''] '' @ t @ nl @ nl, buffer := []\<rparr>) \<and>
     segment_count w' = Suc (segment_count w) \<and> translate_calls w' = translate_calls w"
  using assms
  by (simp add: handle_result_def first_transcript_def prog_defs datetime_now_def
        Let_def print_calm if_output_file_def file_write_calm file_flush_calm)

theorem transcript_only_entry_witness:
  "\<exists>w'. handle_result example_self example_env False final_let_us_pray (streaming None) =
          (Inr (), w') \<and>
     map_option persisted (output_file w') =
       Some (concat (header_lines example_self (example_clock 1)) @
             ''['' @ strftime_HMS (example_clock 2) @ ''] Let us pray.'' @ nl @ nl) \<and>
     map_option buffer (output_file w') = Some [] \<and>
     segment_count w' = 1 \<and> translate_calls w' = []"
proof -
  let ?f = "\<lparr>file_name = ''results/live_translation_20240517_093000.txt'',
         buffer = [], persisted = concat (header_lines example_self (example_clock 1)),
         closed = False\<rparr>"
  have h: "interrupt_in (streaming None) = None" "output_file (streaming None) = Some ?f"
    "\<not> closed ?f" "is_final final_let_us_pray"
    "alternatives final_let_us_pray = ''Let us pray.'' # []"
    by (simp_all add: streaming_def final_let_us_pray_def)
  have st: "clock_reads (streaming None) = 2" "segment_count (streaming None) = 0"
    "translate_calls (streaming None) = []" "now example_env = example_clock"
    by (simp_all add: streaming_def example_env_def)
  from transcript_only_entry [OF h, of example_self example_env] show ?thesis
    by (auto simp add: st)
qed

end
